theory Spec2Isabelle
  imports Main
begin

section \<open>Data model\<close>

text \<open>
  An instant (Go's \<^verbatim>\<open>time.Time\<close>) is a point on a totally ordered time line; it is
  modelled as the integer number of nanoseconds since the Unix epoch, so that
  \<^verbatim>\<open>Before\<close>, \<^verbatim>\<open>After\<close> and \<^verbatim>\<open>Equal\<close> are \<open><\<close>, \<open>>\<close> and \<open>=\<close> on \<open>int\<close>.
  A \<^verbatim>\<open>time.Duration\<close> is a signed number of nanoseconds and \<^verbatim>\<open>t.Add(d)\<close> is \<open>t + d\<close>.
  The 64-bit range of a duration and the range of representable instants are not
  modelled: the integers are unbounded, and the concrete inputs below stay far inside
  both ranges.
\<close>

type_synonym time = int
type_synonym duration = int

record Event =
  Start :: time
  End :: time
  Name :: string

text \<open>
  The ways in which the code stops without returning: the explicit \<^verbatim>\<open>panic\<close> at the end
  of \<^verbatim>\<open>reduceEvents\<close> (its message prints both events), the run-time panic of an index
  expression out of range, and the panic of \<^verbatim>\<open>slices.Replace\<close> on a range that is not
  inside the slice.
\<close>

datatype panic =
    MissedSomething Event Event
  | IndexOutOfRange
  | SliceBoundsOutOfRange

text \<open>Go's \<^verbatim>\<open>error\<close> interface value; \<^verbatim>\<open>nil\<close> is \<open>None\<close>.\<close>

type_synonym error = string

section \<open>Pairwise resolution\<close>

fun isOverlap :: "Event \<Rightarrow> Event \<Rightarrow> bool" where
  "isOverlap e1 e2 =
    (if (Start e1 < Start e2 \<and> End e1 < Start e2) \<or> (Start e2 < Start e1 \<and> End e2 < Start e1)
       then False
     else if Start e1 < Start e2 \<and> Start e2 = End e1 \<and> End e2 > End e1
       then False
     else True)"

fun reduceEvents :: "Event \<Rightarrow> Event \<Rightarrow> panic + (Event list \<times> Event list)" where
  "reduceEvents e1 e2 =
    (if \<not> isOverlap e1 e2 then Inr ([e1], [e2])
     else if Start e1 = Start e2 \<and> End e1 = End e2 then Inr ([], [e2])
     else if Start e1 = Start e2 \<and> End e1 > End e2
       then Inr ([e1\<lparr>Start := End e2\<rparr>], [e2])
     else if Start e1 = Start e2 \<and> End e1 < End e2 then Inr ([], [e2])
     else if Start e1 < Start e2 \<and> End e1 > End e2
       then Inr ([e1\<lparr>End := Start e2\<rparr>, e1\<lparr>Start := End e2, End := End e1\<rparr>], [e2])
     else if Start e2 < Start e1 \<and> End e2 > End e1 then Inr ([], [e2])
     else if Start e1 < Start e2 \<and> Start e2 < End e1 \<and> End e2 > End e1
       then Inr ([e1\<lparr>End := Start e2\<rparr>], [e2])
     else if Start e2 < Start e1 \<and> Start e1 < End e2 \<and> End e1 > End e2
       then Inr ([e1\<lparr>Start := End e2\<rparr>], [e2])
     else Inl (MissedSomething e1 e2))"

text \<open>The data-model invariant of an occurrence: it does not end before it starts.\<close>

definition valid :: "Event \<Rightarrow> bool" where
  "valid e \<longleftrightarrow> Start e \<le> End e"

text \<open>A fragment lies inside an event and keeps its name.\<close>

definition within :: "Event \<Rightarrow> Event \<Rightarrow> bool" where
  "within e f \<longleftrightarrow> Start e \<le> Start f \<and> End f \<le> End e \<and> Start f \<le> End f \<and> Name f = Name e"


section \<open>The driver over a whole list\<close>

text \<open>
  \<^verbatim>\<open>slices.Replace(s, i, j, v...)\<close> of the Go standard library replaces the elements
  \<^verbatim>\<open>s[i:j]\<close> by \<^verbatim>\<open>v\<close> and returns the modified slice; it panics if \<^verbatim>\<open>j > len(s)\<close> or
  \<^verbatim>\<open>s[i:j]\<close> is not a valid slice of \<^verbatim>\<open>s\<close>.
\<close>

definition slices_Replace :: "'a list \<Rightarrow> nat \<Rightarrow> nat \<Rightarrow> 'a list \<Rightarrow> panic + 'a list" where
  "slices_Replace s i j v =
    (if i \<le> j \<and> j \<le> length s then Inr (take i s @ v @ drop j s)
     else Inl SliceBoundsOutOfRange)"

text \<open>
  The \<^verbatim>\<open>for j != len(processedEvents)\<close> loop of \<^verbatim>\<open>ReduceAllEvents\<close>, as a function of
  the loop variables. The loop has no bound that the source states, so it is a partial
  function: \<open>None\<close> is a run that never leaves the loop, \<open>Some (Inl p)\<close> a run that
  panics, \<open>Some (Inr es)\<close> a run that leaves the loop with the list \<open>es\<close>.
  The index expressions \<^verbatim>\<open>processedEvents[i]\<close> and \<^verbatim>\<open>processedEvents[j]\<close> panic out
  of range.
\<close>

partial_function (option) reduceLoop ::
  "Event list \<Rightarrow> nat \<Rightarrow> nat \<Rightarrow> (panic + Event list) option" where
  "reduceLoop processedEvents i j =
    (if j = length processedEvents then Some (Inr processedEvents)
     else
       let (i, j) = (if i = length processedEvents then (0, j + 1) else (i, j)) in
       if int i = int (length processedEvents) - 2 \<and> j = length processedEvents
         then Some (Inr processedEvents)
       else if \<not> (i < length processedEvents \<and> j < length processedEvents)
         then Some (Inl IndexOutOfRange)
       else if \<not> isOverlap (processedEvents ! i) (processedEvents ! j)
         then reduceLoop processedEvents (i + 1) j
       else
         (case reduceEvents (processedEvents ! i) (processedEvents ! j) of
            Inl p \<Rightarrow> Some (Inl p)
          | Inr (updatedEvents1, updatedEvents2) \<Rightarrow>
              (case slices_Replace processedEvents i (i + 1) updatedEvents1 of
                 Inl p \<Rightarrow> Some (Inl p)
               | Inr processedEvents1 \<Rightarrow>
                   (case slices_Replace processedEvents1 (j + length updatedEvents1)
                           (j + length updatedEvents1 + 1) updatedEvents2 of
                      Inl p \<Rightarrow> Some (Inl p)
                    | Inr processedEvents2 \<Rightarrow> reduceLoop processedEvents2 0 1))))"

declare reduceLoop.simps [code]

text \<open>
  \<^verbatim>\<open>ReduceAllEvents\<close> returns a list together with an error value; every \<^verbatim>\<open>return\<close>
  statement of the source passes \<^verbatim>\<open>nil\<close> as the error.
\<close>

definition ReduceAllEvents :: "Event list \<Rightarrow> (panic + (Event list \<times> error option)) option" where
  "ReduceAllEvents events =
    (if length events < 2 then Some (Inr (events, None))
     else
       (case reduceLoop events 0 1 of
          None \<Rightarrow> None
        | Some (Inl p) \<Rightarrow> Some (Inl p)
        | Some (Inr processedEvents) \<Rightarrow> Some (Inr (processedEvents, None))))"

section \<open>Expansion of a rule\<close>

record Rule = Event +
  RepeatDuration :: duration
  RepeatDateAnually :: int
  RepeatWeekly :: int
  RepeatDayOfMonthMonthly :: int
  RepeatDaily :: int
  RepeatForwardUntil :: time
  RepeatBackwardUntil :: time
  Skip :: "time list"
  Canceled :: "time list"

text \<open>
  The two \<^verbatim>\<open>for\<close> loops of \<^verbatim>\<open>Rule.Expand\<close>. Each advances the end time first and
  appends the event afterwards; neither reads any field of the rule other than the
  embedded event and \<^verbatim>\<open>RepeatDuration\<close>. \<open>None\<close> is a loop that never ends.
\<close>

partial_function (option) expandBackward ::
  "Rule \<Rightarrow> time \<Rightarrow> time \<Rightarrow> time \<Rightarrow> Event list \<Rightarrow> Event list option" where
  "expandBackward r viewStart evaluatingStartTime evaluatingEndTime expandedEvents =
    (if evaluatingStartTime > viewStart then
       let evaluatingEndTime = evaluatingEndTime + (- RepeatDuration r) in
       expandBackward r viewStart (evaluatingStartTime + (- RepeatDuration r)) evaluatingEndTime
         (expandedEvents @
            [\<lparr>Start = evaluatingStartTime, End = evaluatingEndTime, Name = Name r\<rparr>])
     else Some expandedEvents)"

partial_function (option) expandForward ::
  "Rule \<Rightarrow> time \<Rightarrow> time \<Rightarrow> time \<Rightarrow> Event list \<Rightarrow> Event list option" where
  "expandForward r viewEnd evaluatingStartTime evaluatingEndTime expandedEvents =
    (if evaluatingStartTime < viewEnd then
       let evaluatingEndTime = evaluatingEndTime + RepeatDuration r in
       expandForward r viewEnd (evaluatingStartTime + RepeatDuration r) evaluatingEndTime
         (expandedEvents @
            [\<lparr>Start = evaluatingStartTime, End = evaluatingEndTime, Name = Name r\<rparr>])
     else Some expandedEvents)"

declare expandBackward.simps [code]
declare expandForward.simps [code]

definition Expand :: "Rule \<Rightarrow> time \<Rightarrow> time \<Rightarrow> Event list option" where
  "Expand r viewStart viewEnd =
    (case expandBackward r viewStart (Start r) (End r) [] of
       None \<Rightarrow> None
     | Some expandedEvents \<Rightarrow> expandForward r viewEnd (Start r) (End r) expandedEvents)"

section \<open>Calendar dates\<close>

text \<open>
  \<^verbatim>\<open>time.Hour\<close> and \<^verbatim>\<open>time.Date(y, m, d, 0, 0, 0, 0, time.UTC)\<close> of the Go standard
  library: days are counted in the proleptic Gregorian calendar from 1970-01-01.
\<close>

definition Hour :: duration where
  "Hour = 3600 * 1000000000"

definition daysFromCivil :: "int \<Rightarrow> int \<Rightarrow> int \<Rightarrow> int" where
  "daysFromCivil y m d =
    (let y' = (if m \<le> 2 then y - 1 else y);
         era = y' div 400;
         yoe = y' - era * 400;
         doy = (153 * (if m > 2 then m - 3 else m + 9) + 2) div 5 + d - 1;
         doe = yoe * 365 + yoe div 4 - yoe div 100 + doy
     in era * 146097 + doe - 719468)"

definition Date :: "int \<Rightarrow> int \<Rightarrow> int \<Rightarrow> time" where
  "Date y m d = daysFromCivil y m d * (24 * Hour)"

section \<open>Concrete inputs\<close>

text \<open>The rule and the window of \<^verbatim>\<open>TestExpandEvents\<close>.\<close>

definition birthday :: Rule where
  "birthday = \<lparr>Start = Date 2020 2 13, End = Date 2020 2 14, Name = ''Dominico's Birthday'',
     RepeatDuration = 24 * Hour * 365, RepeatDateAnually = 0, RepeatWeekly = 0,
     RepeatDayOfMonthMonthly = 0, RepeatDaily = 0,
     RepeatForwardUntil = Date 2025 2 13, RepeatBackwardUntil = Date 1 1 1,
     Skip = [], Canceled = []\<rparr>"

text \<open>A rule that does not repeat.\<close>

definition once :: Rule where
  "once = \<lparr>Start = 5, End = 6, Name = ''once'',
     RepeatDuration = 0, RepeatDateAnually = 0, RepeatWeekly = 0,
     RepeatDayOfMonthMonthly = 0, RepeatDaily = 0,
     RepeatForwardUntil = Date 1 1 1, RepeatBackwardUntil = Date 1 1 1,
     Skip = [], Canceled = []\<rparr>"

text \<open>An event from \<open>s\<close> to \<open>e\<close> named \<open>n\<close>.\<close>

definition ev :: "time \<Rightarrow> time \<Rightarrow> string \<Rightarrow> Event" where
  "ev s e n = \<lparr>Start = s, End = e, Name = n\<rparr>"

section \<open>Properties of the pairwise resolution\<close>

lemma reduceEvents_second:
  "reduceEvents e1 e2 = Inr (r1, r2) \<Longrightarrow> r2 = [e2]"
  by (simp split: if_splits)

lemma reduceEvents_first_length:
  "reduceEvents e1 e2 = Inr (r1, r2) \<Longrightarrow> length r1 \<le> 2"
  by (auto split: if_splits)

lemma isOverlap_self: "isOverlap e e"
  by simp

lemma reduceEvents_self: "reduceEvents e e = Inr ([], [e])"
  by simp

text \<open>
  The configurations of two valid events that reach the final \<^verbatim>\<open>panic\<close>: the two events
  end together but start apart, or the first starts exactly where the second ends.
\<close>

lemma reduceEvents_panics_iff:
  assumes "valid e1" and "valid e2"
  shows "reduceEvents e1 e2 = Inl (MissedSomething e1 e2) \<longleftrightarrow>
           (Start e1 \<noteq> Start e2 \<and> End e1 = End e2) \<or>
           (Start e2 < Start e1 \<and> Start e1 = End e2 \<and> End e2 < End e1)"
proof -
  have "Start e1 < Start e2 \<or> Start e1 = Start e2 \<or> Start e2 < Start e1" by linarith
  moreover have "End e1 < End e2 \<or> End e1 = End e2 \<or> End e2 < End e1" by linarith
  moreover have "Start e1 < End e2 \<or> Start e1 = End e2 \<or> End e2 < Start e1" by linarith
  moreover have "Start e2 < End e1 \<or> Start e2 = End e1 \<or> End e1 < Start e2" by linarith
  ultimately show ?thesis using assms
    by (elim disjE) (simp_all add: valid_def)
qed


text \<open>
  Claim C4: for every pair of events \<open>e1\<close>, \<open>e2\<close>, each with \<open>Start \<le> End\<close>, on which
  \<^verbatim>\<open>reduceEvents\<close> returns, the second returned list is exactly the one-element list
  \<open>[e2]\<close>: the higher-priority event comes back with its start, end and name as given,
  in every geometric case.
\<close>

theorem reduceEvents_keeps_e2:
  assumes "valid e1" and "valid e2" and "reduceEvents e1 e2 = Inr (r1, r2)"
  shows "r2 = [e2]"
  using assms(3) by (rule reduceEvents_second)

theorem reduceEvents_keeps_e2_witness:
  "valid (ev 0 10 ''one'') \<and> valid (ev 3 5 ''two'') \<and>
   reduceEvents (ev 0 10 ''one'') (ev 3 5 ''two'')
     = Inr ([ev 0 3 ''one'', ev 5 10 ''one''], [ev 3 5 ''two''])"
proof -
  have v1: "valid (ev 0 10 ''one'')" and v2: "valid (ev 3 5 ''two'')"
    by (simp_all add: valid_def ev_def)
  obtain r2 where r: "reduceEvents (ev 0 10 ''one'') (ev 3 5 ''two'')
                       = Inr ([ev 0 3 ''one'', ev 5 10 ''one''], r2)"
    by (simp add: ev_def)
  from reduceEvents_keeps_e2 [OF v1 v2 r] v1 v2 r show ?thesis by simp
qed

text \<open>
  Claim C7: for every pair of events \<open>e1\<close>, \<open>e2\<close>, each with \<open>Start \<le> End\<close>, on which
  \<^verbatim>\<open>reduceEvents\<close> returns, the two returned lists hold at least one and at most three
  events in total.
\<close>

theorem reduceEvents_fragment_bound:
  assumes "valid e1" and "valid e2" and "reduceEvents e1 e2 = Inr (r1, r2)"
  shows "1 \<le> length r1 + length r2 \<and> length r1 + length r2 \<le> 3"
  using reduceEvents_second [OF assms(3)] reduceEvents_first_length [OF assms(3)]
  by simp

theorem reduceEvents_fragment_bound_witness:
  "valid (ev 0 10 ''one'') \<and> valid (ev 3 5 ''two'') \<and>
   (\<exists>r1 r2. reduceEvents (ev 0 10 ''one'') (ev 3 5 ''two'') = Inr (r1, r2) \<and>
      length r1 + length r2 = 3)"
proof -
  have v1: "valid (ev 0 10 ''one'')" and v2: "valid (ev 3 5 ''two'')"
    by (simp_all add: valid_def ev_def)
  obtain r1 r2 where r: "reduceEvents (ev 0 10 ''one'') (ev 3 5 ''two'') = Inr (r1, r2)"
    and l: "2 \<le> length r1" and l2: "length r2 = 1"
    by (simp add: ev_def)
  from reduceEvents_fragment_bound [OF v1 v2 r] l l2 have "length r1 + length r2 = 3"
    by simp
  with v1 v2 r show ?thesis by blast
qed

text \<open>
  Claim C10: for every pair of events \<open>e1\<close>, \<open>e2\<close>, each with \<open>Start \<le> End\<close>, on which
  \<^verbatim>\<open>reduceEvents\<close> returns, every event of the first returned list is a sub-interval of
  \<open>e1\<close> (it starts no earlier and ends no later than \<open>e1\<close>, and does not end before it
  starts) and carries the name of \<open>e1\<close>.
\<close>

theorem reduceEvents_fragments_within:
  assumes "valid e1" and "valid e2" and "reduceEvents e1 e2 = Inr (r1, r2)"
  shows "\<forall>f \<in> set r1. within e1 f"
  using assms by (auto simp: valid_def within_def split: if_splits)

theorem reduceEvents_fragments_within_witness:
  "valid (ev 0 10 ''one'') \<and> valid (ev 3 5 ''two'') \<and>
   reduceEvents (ev 0 10 ''one'') (ev 3 5 ''two'')
     = Inr ([ev 0 3 ''one'', ev 5 10 ''one''], [ev 3 5 ''two'']) \<and>
   within (ev 0 10 ''one'') (ev 0 3 ''one'') \<and> within (ev 0 10 ''one'') (ev 5 10 ''one'')"
proof -
  have v1: "valid (ev 0 10 ''one'')" and v2: "valid (ev 3 5 ''two'')"
    by (simp_all add: valid_def ev_def)
  have r: "reduceEvents (ev 0 10 ''one'') (ev 3 5 ''two'')
             = Inr ([ev 0 3 ''one'', ev 5 10 ''one''], [ev 3 5 ''two''])"
    by (simp add: ev_def)
  from reduceEvents_fragments_within [OF v1 v2 r] v1 v2 r show ?thesis by simp
qed

text \<open>
  Claim C2: for every pair of events each with \<open>Start \<le> End\<close>, \<^verbatim>\<open>reduceEvents\<close> matches
  one of its enumerated cases and the final \<^verbatim>\<open>panic\<close> is unreachable. The code does not
  satisfy this: two events that end at the same instant and start at different instants
  overlap, match none of the cases, and reach the \<^verbatim>\<open>panic\<close>.
\<close>

theorem reduceEvents_same_end_panics:
  "valid (ev 0 10 ''one'') \<and> valid (ev 5 10 ''two'') \<and>
   reduceEvents (ev 0 10 ''one'') (ev 5 10 ''two'')
     = Inl (MissedSomething (ev 0 10 ''one'') (ev 5 10 ''two''))"
  by (simp add: valid_def ev_def)


section \<open>Properties of the driver\<close>

text \<open>
  With \<open>j = 1\<close> the loop compares \<^verbatim>\<open>processedEvents[0]\<close> with \<^verbatim>\<open>processedEvents[1]\<close>
  and then \<^verbatim>\<open>processedEvents[1]\<close> with itself, which always overlaps; every replacement
  resets \<open>i\<close> and \<open>j\<close> to \<open>0\<close> and \<open>1\<close>, and the second \<^verbatim>\<open>slices.Replace\<close> writes one
  position behind the second event, so it needs a list of at least three events and leaves
  at least two. Hence the loop is never left through its condition or its \<^verbatim>\<open>break\<close>:
  a run that ends, ends in a panic.
\<close>

lemma reduceLoop_never_returns:
  assumes "reduceLoop pe i j = Some y" and "2 \<le> length pe" and "j = 1" and "i \<le> 1"
  shows "\<exists>p. y = Inl p"
  using assms
proof (induction pe i j y rule: reduceLoop.raw_induct [rotated 1, consumes 1])
  case (1 f pe i j y)
  note IH = "1.IH" and body = "1.hyps" and len0 = \<open>2 \<le> length pe\<close> and j = \<open>j = 1\<close>
  from len0 have len: "2 \<le> length pe" "pe \<noteq> []" "length pe \<noteq> Suc 0" "Suc 0 < length pe"
    by auto
  show ?case
  proof (cases "i = 0")
    case i0: True
    show ?thesis
    proof (cases "isOverlap (pe ! 0) (pe ! 1)")
      case False
      with body i0 j len have "f pe 1 1 = Some y"
        by (simp del: isOverlap.simps reduceEvents.simps)
      then show ?thesis using IH len0 by simp
    next
      case ov: True
      show ?thesis
      proof (cases "reduceEvents (pe ! 0) (pe ! 1)")
        case (Inl p)
        with body i0 j len ov have "y = Inl p"
          by (simp del: isOverlap.simps reduceEvents.simps)
        then show ?thesis by blast
      next
        case (Inr r)
        obtain u1 u2 where r: "r = (u1, u2)" by (cases r)
        have u2: "u2 = [pe ! 1]" using Inr r reduceEvents_second by blast
        have rep1: "slices_Replace pe 0 (0 + 1) u1 = Inr (u1 @ drop 1 pe)"
          using len by (simp add: slices_Replace_def)
        show ?thesis
        proof (cases "3 \<le> length pe")
          case False
          then have "slices_Replace (u1 @ drop 1 pe) (1 + length u1) (1 + length u1 + 1) u2
                 = Inl SliceBoundsOutOfRange"
            by (simp add: slices_Replace_def)
          with body i0 j len ov Inr r rep1 have "y = Inl SliceBoundsOutOfRange"
            by (simp del: isOverlap.simps reduceEvents.simps)
          then show ?thesis by blast
        next
          case len3: True
          define pe2 where "pe2 = take (1 + length u1) (u1 @ drop 1 pe) @ u2
                                    @ drop (1 + length u1 + 1) (u1 @ drop 1 pe)"
          have rep2: "slices_Replace (u1 @ drop 1 pe) (1 + length u1) (1 + length u1 + 1) u2
                        = Inr pe2"
            using len3 by (simp add: slices_Replace_def pe2_def)
          have len2: "2 \<le> length pe2"
            using len3 by (simp add: pe2_def u2)
          from rep2 body i0 j len ov Inr r rep1 have "f pe2 0 1 = Some y"
            by (simp del: isOverlap.simps reduceEvents.simps)
          then show ?thesis using IH len2 by simp
        qed
      qed
    qed
  next
    case False
    with \<open>i \<le> 1\<close> have i1: "i = 1" by simp
    have ov: "isOverlap (pe ! 1) (pe ! 1)" by (rule isOverlap_self)
    have red: "reduceEvents (pe ! 1) (pe ! 1) = Inr ([], [pe ! 1])" by (rule reduceEvents_self)
    have rep1: "slices_Replace pe 1 (1 + 1) [] = Inr (take 1 pe @ drop (1 + 1) pe)"
      using len by (simp add: slices_Replace_def)
    show ?thesis
    proof (cases "3 \<le> length pe")
      case False
      then have "slices_Replace (take 1 pe @ drop (1 + 1) pe) (1 + length ([]::Event list))
                   (1 + length ([]::Event list) + 1) [pe ! 1] = Inl SliceBoundsOutOfRange"
        using len by (simp add: slices_Replace_def)
      with body i1 j len ov red rep1 have "y = Inl SliceBoundsOutOfRange"
        by (simp del: isOverlap.simps reduceEvents.simps)
      then show ?thesis by blast
    next
      case len3: True
      define pe2 where "pe2 = take 1 (take 1 pe @ drop (1 + 1) pe) @ [pe ! 1]
                                @ drop (1 + 1) (take 1 pe @ drop (1 + 1) pe)"
      have rep2: "slices_Replace (take 1 pe @ drop (1 + 1) pe) (1 + length ([]::Event list))
                   (1 + length ([]::Event list) + 1) [pe ! 1] = Inr pe2"
        using len3 by (simp add: slices_Replace_def pe2_def)
      have len2: "2 \<le> length pe2"
        using len3 by (simp add: pe2_def)
      from rep2 body i1 j len ov red rep1 have "f pe2 0 1 = Some y"
        by (simp del: isOverlap.simps reduceEvents.simps)
      then show ?thesis using IH len2 by simp
    qed
  qed
qed

text \<open>On a list of two or more events \<^verbatim>\<open>ReduceAllEvents\<close> never returns normally.\<close>

lemma ReduceAllEvents_no_return:
  "2 \<le> length events \<Longrightarrow> ReduceAllEvents events \<noteq> Some (Inr res)"
  using reduceLoop_never_returns [of events 0 1]
  by (auto simp: ReduceAllEvents_def split: option.splits sum.splits)

lemma ReduceAllEvents_returns_iff:
  "ReduceAllEvents events = Some (Inr res) \<longleftrightarrow> length events < 2 \<and> res = (events, None)"
proof (cases "length events < 2")
  case True
  then show ?thesis by (auto simp: ReduceAllEvents_def)
next
  case False
  then have "2 \<le> length events" by simp
  from ReduceAllEvents_no_return [OF this] False show ?thesis by simp
qed

text \<open>
  A run that never ends: the first event starts together with a zero-length second event
  and is longer. \<^verbatim>\<open>reduceEvents\<close> returns both unchanged, the third position is
  overwritten by the second event, and the loop starts over on the same first two events.
\<close>

lemma reduceLoop_stuck:
  assumes "reduceLoop pe i j = Some y"
    and "pe = a # b # c # rest" and "i = 0" and "j = 1"
    and "Start a = Start b" and "End b = Start b" and "End b < End a"
  shows False
  using assms
proof (induction pe i j y arbitrary: c rule: reduceLoop.raw_induct [rotated 1, consumes 1])
  case (1 f pe i j y)
  have ov: "isOverlap a b" using "1.prems" by simp
  have a: "a\<lparr>Start := End b\<rparr> = a" using "1.prems" by simp
  have red: "reduceEvents a b = Inr ([a], [b])" using "1.prems" a by simp
  have rep1: "slices_Replace (a # b # c # rest) 0 (0 + 1) [a] = Inr (a # b # c # rest)"
    by (simp add: slices_Replace_def)
  have rep2: "slices_Replace (a # b # c # rest) (1 + length [a]) (1 + length [a] + 1) [b]
                = Inr (a # b # b # rest)"
    by (simp add: slices_Replace_def)
  from "1.hyps" "1.prems"(1-3) ov red rep1 rep2 have "f (a # b # b # rest) 0 1 = Some y"
    by (simp del: isOverlap.simps reduceEvents.simps)
  then show False using "1.IH" "1.prems" by blast
qed

lemma ReduceAllEvents_diverges:
  assumes "Start a = Start b" and "End b = Start b" and "End b < End a"
  shows "ReduceAllEvents (a # b # c # rest) = None"
proof (cases "reduceLoop (a # b # c # rest) 0 1")
  case None
  then show ?thesis by (simp add: ReduceAllEvents_def)
next
  case (Some y)
  from reduceLoop_stuck [OF Some refl refl refl assms] show ?thesis ..
qed

lemma ReduceAllEvents_diverges_example:
  "ReduceAllEvents [ev 0 10 ''one'', ev 0 0 ''two'', ev 20 30 ''three''] = None"
  by (rule ReduceAllEvents_diverges) (simp_all add: ev_def)


text \<open>
  Claim C9: for every input list on which \<^verbatim>\<open>ReduceAllEvents\<close> returns normally, the error
  component of its result is \<^verbatim>\<open>nil\<close>; no failure is reported through the error value.
\<close>

theorem ReduceAllEvents_error_nil:
  assumes "ReduceAllEvents events = Some (Inr (res, err))"
  shows "err = None"
  using assms
  by (auto simp: ReduceAllEvents_def split: if_splits option.splits sum.splits)

theorem ReduceAllEvents_error_nil_witness:
  "ReduceAllEvents [ev 0 1 ''one''] = Some (Inr ([ev 0 1 ''one''], None))"
proof -
  obtain err where r: "ReduceAllEvents [ev 0 1 ''one''] = Some (Inr ([ev 0 1 ''one''], err))"
    by (simp add: ReduceAllEvents_def)
  from ReduceAllEvents_error_nil [OF r] r show ?thesis by simp
qed

text \<open>
  Claim C1: for every finite list of events, each with \<open>Start \<le> End\<close>,
  \<^verbatim>\<open>ReduceAllEvents\<close> returns normally and no two distinct events of the returned list
  overlap. The code does not return on the three disjoint events of its own test
  ``Multiple Non-overlapping Events'' (days counted from the test's reference instant):
  having found the first two disjoint, it compares the second event with itself, removes
  it, and writes it over the third; on the remaining two events the same comparison ends
  in the panic of \<^verbatim>\<open>slices.Replace\<close>.
\<close>

theorem ReduceAllEvents_disjoint_panics:
  "valid (ev 0 1 []) \<and> valid (ev 2 3 []) \<and> valid (ev 4 5 []) \<and>
   ReduceAllEvents [ev 0 1 [], ev 2 3 [], ev 4 5 []] = Some (Inl SliceBoundsOutOfRange)"
  by code_simp

text \<open>
  Claim C3: for every pair of events \<open>a\<close>, \<open>b\<close>, each with \<open>Start \<le> End\<close>, with
  \<open>End a = Start b\<close>, neither \<^verbatim>\<open>isOverlap(a,b)\<close> nor \<^verbatim>\<open>isOverlap(b,a)\<close> holds, and reducing
  the two-element list of them returns both unchanged. In the code only the argument order
  \<open>(a, b)\<close> is recognised as touching; in the order \<open>(b, a)\<close> the events count as
  overlapping, and reducing either two-element list panics.
\<close>

theorem touching_events_overlap_reversed:
  "valid (ev 0 5 ''a'') \<and> valid (ev 5 10 ''b'') \<and> End (ev 0 5 ''a'') = Start (ev 5 10 ''b'') \<and>
   \<not> isOverlap (ev 0 5 ''a'') (ev 5 10 ''b'') \<and>
   isOverlap (ev 5 10 ''b'') (ev 0 5 ''a'') \<and>
   ReduceAllEvents [ev 0 5 ''a'', ev 5 10 ''b''] = Some (Inl SliceBoundsOutOfRange) \<and>
   ReduceAllEvents [ev 5 10 ''b'', ev 0 5 ''a'']
     = Some (Inl (MissedSomething (ev 5 10 ''b'') (ev 0 5 ''a'')))"
  by code_simp

text \<open>
  Claim C8: \<^verbatim>\<open>ReduceAllEvents\<close> is idempotent: for every finite list \<open>x\<close> of events, each
  with \<open>Start \<le> End\<close>, applying it to the result of \<^verbatim>\<open>ReduceAllEvents(x)\<close> returns the
  same list as \<^verbatim>\<open>ReduceAllEvents(x)\<close>. On the input of the code's test ``Simple Overlap''
  the code panics, so there is no result to apply it to again; it panics as well on the
  list that this test expects as the result.
\<close>

theorem ReduceAllEvents_simple_overlap_panics:
  "valid (ev 0 2 []) \<and> valid (ev 1 3 []) \<and> valid (ev 0 1 []) \<and>
   ReduceAllEvents [ev 0 2 [], ev 1 3 []] = Some (Inl SliceBoundsOutOfRange) \<and>
   ReduceAllEvents [ev 0 1 [], ev 1 3 []] = Some (Inl SliceBoundsOutOfRange)"
  by code_simp

section \<open>Properties of the expansion\<close>

lemma expandForward_step:
  "s < viewEnd \<Longrightarrow> expandForward r viewEnd s e acc =
     expandForward r viewEnd (s + RepeatDuration r) (e + RepeatDuration r)
       (acc @ [\<lparr>Start = s, End = e + RepeatDuration r, Name = Name r\<rparr>])"
  by (subst expandForward.simps) (simp add: Let_def)

lemma expandForward_stop:
  "\<not> s < viewEnd \<Longrightarrow> expandForward r viewEnd s e acc = Some acc"
  by (subst expandForward.simps) simp

lemma expandBackward_step:
  "viewStart < s \<Longrightarrow> expandBackward r viewStart s e acc =
     expandBackward r viewStart (s - RepeatDuration r) (e - RepeatDuration r)
       (acc @ [\<lparr>Start = s, End = e - RepeatDuration r, Name = Name r\<rparr>])"
  by (subst expandBackward.simps) (simp add: Let_def)

lemma expandBackward_stop:
  "\<not> viewStart < s \<Longrightarrow> expandBackward r viewStart s e acc = Some acc"
  by (subst expandBackward.simps) simp

text \<open>With a repeat duration of zero a loop that is entered is never left.\<close>

lemma expandBackward_zero_diverges:
  assumes "RepeatDuration r = 0" and "viewStart < s"
  shows "expandBackward r viewStart s e acc = None"
proof (rule ccontr)
  assume "expandBackward r viewStart s e acc \<noteq> None"
  then obtain y where "expandBackward r viewStart s e acc = Some y" by blast
  then show False using assms
  proof (induction r viewStart s e acc y
           rule: expandBackward.raw_induct [rotated 1, consumes 1])
    case (1 f r viewStart s e acc y)
    from "1.hyps" "1.prems"
    have "f r viewStart s e (acc @ [\<lparr>Start = s, End = e, Name = Name r\<rparr>]) = Some y"
      by simp
    then show False using "1.IH" "1.prems" by blast
  qed
qed

lemma expandForward_zero_diverges:
  assumes "RepeatDuration r = 0" and "s < viewEnd"
  shows "expandForward r viewEnd s e acc = None"
proof (rule ccontr)
  assume "expandForward r viewEnd s e acc \<noteq> None"
  then obtain y where "expandForward r viewEnd s e acc = Some y" by blast
  then show False using assms
  proof (induction r viewEnd s e acc y
           rule: expandForward.raw_induct [rotated 1, consumes 1])
    case (1 f r viewEnd s e acc y)
    from "1.hyps" "1.prems"
    have "f r viewEnd s e (acc @ [\<lparr>Start = s, End = e, Name = Name r\<rparr>]) = Some y"
      by simp
    then show False using "1.IH" "1.prems" by blast
  qed
qed

text \<open>
  What \<^verbatim>\<open>Expand\<close> does with a repeat duration of zero: it returns only when the base
  occurrence starts at an instant that is both the start and the end of the window, and
  then it returns no occurrence; otherwise it never returns.
\<close>

lemma Expand_zero:
  assumes "RepeatDuration r = 0" and "viewStart \<le> viewEnd"
  shows "Expand r viewStart viewEnd =
           (if Start r = viewStart \<and> Start r = viewEnd then Some [] else None)"
proof (cases "viewStart < Start r")
  case True
  then show ?thesis
    using assms expandBackward_zero_diverges [of r viewStart "Start r" "End r" "[]"]
    by (simp add: Expand_def)
next
  case False
  then have b: "expandBackward r viewStart (Start r) (End r) [] = Some []"
    by (simp add: expandBackward_stop)
  show ?thesis
  proof (cases "Start r < viewEnd")
    case True
    then show ?thesis
      using assms b False expandForward_zero_diverges [of r "Start r" viewEnd "End r" "[]"]
      by (simp add: Expand_def)
  next
    case f: False
    then have "expandForward r viewEnd (Start r) (End r) [] = Some []"
      by (simp add: expandForward_stop)
    with b False f assms show ?thesis by (simp add: Expand_def)
  qed
qed

lemma Date_values:
  "Date 2020 2 13 = 1581552000000000000"
  "Date 2020 2 14 = 1581638400000000000"
  "Date 2021 2 12 = 1613088000000000000"
  "Date 2021 2 13 = 1613174400000000000"
  "Date 2022 2 12 = 1644624000000000000"
  "Date 2022 2 13 = 1644710400000000000"
  "Date 2023 2 12 = 1676160000000000000"
  "Date 2023 2 13 = 1676246400000000000"
  "Date 2024 2 12 = 1707696000000000000"
  "Date 2024 2 13 = 1707782400000000000"
  "Date 2025 2 11 = 1739232000000000000"
  "Date 2025 2 12 = 1739318400000000000"
  "Date 2025 2 13 = 1739404800000000000"
  "Date 2026 2 12 = 1770854400000000000"
  by (simp_all add: Date_def daysFromCivil_def Hour_def)

text \<open>
  Claim C6: for every rule whose repeat duration is zero and every window with
  \<open>viewStart \<le> viewEnd\<close>, \<^verbatim>\<open>Expand\<close> terminates and considers only the base occurrence,
  emitting it if and only if it intersects the window. In the code a base occurrence that
  starts inside the window keeps the backward loop running for ever, since the loop
  variable is advanced by the zero duration.
\<close>

theorem Expand_once_diverges:
  "RepeatDuration once = 0 \<and> Start once \<le> End once \<and> (0::time) \<le> 10 \<and>
   Expand once 0 10 = None"
  using Expand_zero [of once 0 10] by (simp add: once_def)

text \<open>
  Claim C5: expanding the rule with base occurrence 2020-02-13 to 2020-02-14, a repeat
  duration of 365 days and forward limit 2025-02-13 over the window from 2020-02-13 to
  2025-02-13 yields exactly five occurrences, one per year 2020 to 2024, each starting on
  February 13 and ending on February 14. The code yields six occurrences: each ends 365
  days after the end of the one it was stepped from, because the end time is advanced
  before the occurrence is appended, and the starts drift to February 12 and 11 across
  the leap days, which lets a sixth start fall before the end of the window.
\<close>

theorem Expand_birthday:
  "map_option length (Expand birthday (Date 2020 2 13) (Date 2025 2 13)) = Some 6 \<and>
   Expand birthday (Date 2020 2 13) (Date 2025 2 13) = Some
     [ev (Date 2020 2 13) (Date 2021 2 13) ''Dominico's Birthday'',
      ev (Date 2021 2 12) (Date 2022 2 13) ''Dominico's Birthday'',
      ev (Date 2022 2 12) (Date 2023 2 13) ''Dominico's Birthday'',
      ev (Date 2023 2 12) (Date 2024 2 13) ''Dominico's Birthday'',
      ev (Date 2024 2 12) (Date 2025 2 12) ''Dominico's Birthday'',
      ev (Date 2025 2 11) (Date 2026 2 12) ''Dominico's Birthday'']"
  by (simp add: Expand_def birthday_def Date_values Hour_def ev_def
        expandBackward_stop expandForward_step expandForward_stop)

end
